theory Spec2Isabelle
  imports Main "HOL-Library.Sublist"
begin

section \<open>Data model (src/types.ts)\<close>

text \<open>
  The enum \<open>ModelId\<close> has two members, the baseline tier
  (\<open>FLASH = 'gemini-3-flash-preview'\<close>) and the pro tier
  (\<open>PRO = 'gemini-3-pro-preview'\<close>). A message's role is the string union
  \<open>'user' | 'model'\<close>.
\<close>

datatype ModelId = FLASH | PRO

datatype Role = User | Model

text \<open>
  \<open>GroundingChunk\<close> is \<open>{ web?: { uri, title } }\<close> and \<open>GroundingMetadata\<close> is
  \<open>{ searchEntryPoint?: { renderedContent }, groundingChunks?: GroundingChunk[] }\<close>.
  An optional field is an \<open>option\<close>.
\<close>

datatype GroundingChunk = GroundingChunk (web: "(string \<times> string) option")

datatype GroundingMetadata =
  GroundingMetadata (searchEntryPoint: "string option") (groundingChunks: "GroundingChunk list option")

text \<open>
  The fields named \<open>id\<close> in the source carry a suffix here, since \<open>id\<close> is the identity
  function of HOL. Instants (\<open>Date.now()\<close>) are natural numbers of milliseconds.
\<close>

record ChatMessage =
  id_msg :: string
  role :: Role
  content :: string
  timestamp :: nat
  isReasoning :: "bool option"
  groundingMetadata :: "GroundingMetadata option"
  isThinking :: "bool option"

record ChatSession =
  id_session :: string
  title :: string
  messages :: "ChatMessage list"
  updatedAt :: nat

text \<open>
  The state of the \<open>App\<close> component: the \<open>useState\<close> cells \<open>sessions\<close>,
  \<open>currentSessionId\<close>, \<open>currentModel\<close>, \<open>enableSearch\<close>, \<open>enableThinking\<close> and
  \<open>isLoading\<close> (src/App.tsx, lines 11 to 34). \<open>isSidebarOpen\<close> plays no part in the
  session and generation logic and is left out.
\<close>

record AppState =
  sessions :: "ChatSession list"
  currentSessionId :: "string option"
  currentModel :: ModelId
  enableSearch :: bool
  enableThinking :: bool
  isLoading :: bool

section \<open>The completion adapter (src/unnamed/part_000, services/gemini)\<close>

subsection \<open>The request sent to the backend\<close>

text \<open>
  One entry of the \<open>contents\<close> array is \<open>{ role, parts: [{ text }] }\<close>; the tools array
  holds at most \<open>{ googleSearch: {} }\<close>; the thinking configuration is
  \<open>{ thinkingBudget }\<close> or \<open>undefined\<close>.
\<close>

datatype Content = Content (role_c: Role) (parts: "string list")

datatype Tool = GoogleSearch

datatype ThinkingConfig = ThinkingConfig (thinkingBudget: nat)

record Request =
  model :: ModelId
  contents :: "Content list"
  tools :: "Tool list option"
  thinkingConfig :: "ThinkingConfig option"

definition formatHistory :: "ChatMessage list \<Rightarrow> Content list" where
  "formatHistory msgs = map (\<lambda>msg. Content (role msg) [content msg]) msgs"

text \<open>Lines 48 to 56: the two-armed conditional that chooses the thinking configuration.\<close>

definition thinkingConfigFor :: "ModelId \<Rightarrow> bool \<Rightarrow> ThinkingConfig option" where
  "thinkingConfigFor m enThinking =
     (if enThinking \<and> m = PRO then Some (ThinkingConfig 16000)
      else if \<not> enThinking \<and> m = PRO then Some (ThinkingConfig 0)
      else None)"

text \<open>
  Lines 36 to 66: the argument of \<open>generateContentStream\<close>. The tools array is passed
  only when it is non-empty.
\<close>

definition buildRequest :: "ModelId \<Rightarrow> ChatMessage list \<Rightarrow> string \<Rightarrow> bool \<Rightarrow> bool \<Rightarrow> Request" where
  "buildRequest m history message enSearch enThinking =
     (let contents = formatHistory history @ [Content User [message]];
          tools = (if enSearch then [GoogleSearch] else [])
      in \<lparr> model = m,
           contents = contents,
           tools = (if length tools > 0 then Some tools else None),
           thinkingConfig = thinkingConfigFor m enThinking \<rparr>)"

subsection \<open>The response stream and the event loop\<close>

text \<open>
  A chunk of the response stream, as far as the adapter reads it: \<open>c.text\<close> (a string or
  \<open>undefined\<close>) and \<open>c.candidates\<close> (absent, or an array of candidates each with an
  optional \<open>groundingMetadata\<close>). The stream is a finite list of chunks followed by its
  end, which is normal or an error thrown to the caller.
\<close>

datatype Candidate = Candidate (groundingMetadata_c: "GroundingMetadata option")

record StreamChunk =
  text_c :: "string option"
  candidates :: "Candidate list option"

datatype StreamEnd = Done | Failed

type_synonym Backend = "Request \<Rightarrow> StreamChunk list \<times> StreamEnd"

text \<open>\<open>c.candidates?.[0]?.groundingMetadata\<close> (line 81).\<close>

definition chunkGrounding :: "StreamChunk \<Rightarrow> GroundingMetadata option" where
  "chunkGrounding c =
     (case candidates c of
        None \<Rightarrow> None
      | Some [] \<Rightarrow> None
      | Some (cand # _) \<Rightarrow> groundingMetadata_c cand)"

text \<open>
  Lines 68 to 85, the body of \<open>for await (const chunk of result)\<close>. The two callbacks act
  on a state of the caller, threaded through the loop. \<open>if (text)\<close> holds for a defined,
  non-empty string; \<open>if (metadata)\<close> holds for any object.
\<close>

fun streamLoop ::
  "(string \<Rightarrow> 's \<Rightarrow> 's) \<Rightarrow> (GroundingMetadata \<Rightarrow> 's \<Rightarrow> 's) \<Rightarrow> StreamChunk list \<Rightarrow> 's \<Rightarrow> 's" where
  "streamLoop onChunk onGrounding [] s = s"
| "streamLoop onChunk onGrounding (c # cs) s =
     (let s1 = (case text_c c of
                  None \<Rightarrow> s
                | Some t \<Rightarrow> if t \<noteq> [] then onChunk t s else s);
          s2 = (case chunkGrounding c of
                  None \<Rightarrow> s1
                | Some metadata \<Rightarrow> onGrounding metadata s1)
      in streamLoop onChunk onGrounding cs s2)"

text \<open>
  \<open>streamGeminiResponse\<close> (lines 24 to 90): build the request, open the stream, run the
  loop, rethrow an error. The result is the caller's state after the callbacks, the way
  the stream ended, and the requests made to the backend.
\<close>

definition streamGeminiResponse ::
  "Backend \<Rightarrow> ModelId \<Rightarrow> ChatMessage list \<Rightarrow> string \<Rightarrow> bool \<Rightarrow> bool \<Rightarrow>
   (string \<Rightarrow> 's \<Rightarrow> 's) \<Rightarrow> (GroundingMetadata \<Rightarrow> 's \<Rightarrow> 's) \<Rightarrow> 's \<Rightarrow> 's \<times> StreamEnd \<times> Request list" where
  "streamGeminiResponse backend m history message enSearch enThinking onChunk onGrounding s =
     (let req = buildRequest m history message enSearch enThinking;
          (chunks, ending) = backend req
      in (streamLoop onChunk onGrounding chunks s, ending, [req]))"

text \<open>
  The callbacks the adapter makes, as data: instantiating the loop with two callbacks
  that append to a log gives the sequence of events the engine receives.
\<close>

datatype Event = TextDelta string | GroundingUpdate GroundingMetadata

definition adapterEvents :: "StreamChunk list \<Rightarrow> Event list" where
  "adapterEvents chunks =
     streamLoop (\<lambda>t log. log @ [TextDelta t]) (\<lambda>g log. log @ [GroundingUpdate g]) chunks []"

fun isEmptyDelta :: "Event \<Rightarrow> bool" where
  "isEmptyDelta (TextDelta t) = (t = [])"
| "isEmptyDelta (GroundingUpdate g) = False"

text \<open>The events one chunk gives rise to, read off the chunk.\<close>

definition chunkEvents :: "StreamChunk \<Rightarrow> Event list" where
  "chunkEvents c =
     (case text_c c of None \<Rightarrow> [] | Some t \<Rightarrow> if t \<noteq> [] then [TextDelta t] else [])
     @ (case chunkGrounding c of None \<Rightarrow> [] | Some g \<Rightarrow> [GroundingUpdate g])"

fun applyCallback :: "(string \<Rightarrow> 's \<Rightarrow> 's) \<Rightarrow> (GroundingMetadata \<Rightarrow> 's \<Rightarrow> 's) \<Rightarrow> Event \<Rightarrow> 's \<Rightarrow> 's" where
  "applyCallback onChunk onGrounding (TextDelta t) s = onChunk t s"
| "applyCallback onChunk onGrounding (GroundingUpdate g) s = onGrounding g s"

section \<open>The session registry (src/App.tsx)\<close>

text \<open>\<open>!currentSessionId\<close>: \<open>null\<close> and the empty string are falsy.\<close>

definition falsyId :: "string option \<Rightarrow> bool" where
  "falsyId c = (case c of None \<Rightarrow> True | Some s \<Rightarrow> s = [])"

text \<open>
  \<open>createNewSession\<close> (lines 51 to 61). The fresh identifier \<open>uuidv4()\<close> and the instant
  \<open>Date.now()\<close> are parameters.
\<close>

definition createNewSession :: "string \<Rightarrow> nat \<Rightarrow> AppState \<Rightarrow> AppState" where
  "createNewSession newId now st =
     (let newSession = \<lparr> id_session = newId, title = ''New Chat'', messages = [], updatedAt = now \<rparr>
      in st\<lparr> sessions := newSession # sessions st, currentSessionId := Some newId \<rparr>)"

text \<open>The sidebar's \<open>onClick\<close> of a session row (line 253).\<close>

definition selectSession :: "string \<Rightarrow> AppState \<Rightarrow> AppState" where
  "selectSession sessionId st = st\<lparr> currentSessionId := Some sessionId \<rparr>"

text \<open>\<open>deleteSession\<close> (lines 63 to 69).\<close>

definition deleteSession :: "string \<Rightarrow> AppState \<Rightarrow> AppState" where
  "deleteSession sessionId st =
     (let st1 = st\<lparr> sessions := filter (\<lambda>s. id_session s \<noteq> sessionId) (sessions st) \<rparr>
      in if currentSessionId st = Some sessionId then st1\<lparr> currentSessionId := None \<rparr> else st1)"

text \<open>
  The effect of lines 42 to 49. Its dependency list is \<open>[sessions.length]\<close>: after a
  render it runs when the length of \<open>sessions\<close> differs from the length at the previous
  render.
\<close>

definition sessionEffect :: "string \<Rightarrow> nat \<Rightarrow> AppState \<Rightarrow> AppState" where
  "sessionEffect newId now st =
     (case sessions st of
        [] \<Rightarrow> createNewSession newId now st
      | s0 # _ \<Rightarrow>
          if falsyId (currentSessionId st) then st\<lparr> currentSessionId := Some (id_session s0) \<rparr>
          else st)"

definition afterRender :: "string \<Rightarrow> nat \<Rightarrow> nat \<Rightarrow> AppState \<Rightarrow> AppState" where
  "afterRender newId now prevLength st =
     (if length (sessions st) \<noteq> prevLength then sessionEffect newId now st else st)"

text \<open>
  \<open>sessions.find(s => s.id === currentSessionId) || sessions[0]\<close> (line 71); the value
  is \<open>undefined\<close> when nothing is found and the list is empty.
\<close>

definition currentSession :: "AppState \<Rightarrow> ChatSession option" where
  "currentSession st =
     (case (case currentSessionId st of
              None \<Rightarrow> None
            | Some c \<Rightarrow> List.find (\<lambda>s. id_session s = c) (sessions st)) of
        Some s \<Rightarrow> Some s
      | None \<Rightarrow> (case sessions st of [] \<Rightarrow> None | s0 # _ \<Rightarrow> Some s0))"

text \<open>\<open>updateSessionMessages\<close> (lines 73 to 79) and \<open>updateSessionTitle\<close> (lines 81 to 85).\<close>

definition updateSessionMessages :: "nat \<Rightarrow> string \<Rightarrow> ChatMessage list \<Rightarrow> AppState \<Rightarrow> AppState" where
  "updateSessionMessages now sessionId newMessages st =
     st\<lparr> sessions :=
           map (\<lambda>session. if id_session session = sessionId
                           then session\<lparr> messages := newMessages, updatedAt := now \<rparr>
                           else session)
               (sessions st) \<rparr>"

definition updateSessionTitle :: "string \<Rightarrow> string \<Rightarrow> AppState \<Rightarrow> AppState" where
  "updateSessionTitle sessionId newTitle st =
     st\<lparr> sessions :=
           map (\<lambda>session. if id_session session = sessionId
                           then session\<lparr> title := newTitle \<rparr>
                           else session)
               (sessions st) \<rparr>"

section \<open>The generation engine (src/App.tsx, \<open>generateResponse\<close>)\<close>

text \<open>
  The three updaters handed to \<open>setSessions\<close> (lines 116 to 126, 130 to 140 and 146 to
  155) have one shape: find the first session with the captured id; if there is none
  leave the list as it is; otherwise map the change over the messages whose id is
  \<open>botMsgId\<close> and store the new message list in every session with that id. React
  applies updaters in the order they were queued; the model applies each at once.
\<close>

definition patchPlaceholder ::
  "string \<Rightarrow> string \<Rightarrow> (ChatMessage \<Rightarrow> ChatMessage) \<Rightarrow> ChatSession list \<Rightarrow> ChatSession list" where
  "patchPlaceholder sid botMsgId change prev =
     (case List.find (\<lambda>s. id_session s = sid) prev of
        None \<Rightarrow> prev
      | Some session \<Rightarrow>
          (let newMsgs = map (\<lambda>msg. if id_msg msg = botMsgId then change msg else msg)
                             (messages session)
           in map (\<lambda>s. if id_session s = sid then s\<lparr> messages := newMsgs \<rparr> else s) prev))"

text \<open>
  The state of one invocation: the component state and the two local variables
  \<open>accumulatedText\<close> and \<open>accumulatedMetadata\<close> of the \<open>try\<close> block.
\<close>

record Invocation =
  app :: AppState
  accumulatedText :: string
  accumulatedMetadata :: "GroundingMetadata option"

definition onChunk :: "string \<Rightarrow> string \<Rightarrow> string \<Rightarrow> Invocation \<Rightarrow> Invocation" where
  "onChunk sid botMsgId chunkText iv =
     (let acc = accumulatedText iv @ chunkText
      in iv\<lparr> accumulatedText := acc,
              app := (app iv)\<lparr> sessions :=
                patchPlaceholder sid botMsgId
                  (\<lambda>msg. msg\<lparr> content := acc, isThinking := Some False \<rparr>)
                  (sessions (app iv)) \<rparr> \<rparr>)"

definition onGrounding :: "string \<Rightarrow> string \<Rightarrow> GroundingMetadata \<Rightarrow> Invocation \<Rightarrow> Invocation" where
  "onGrounding sid botMsgId metadata iv =
     iv\<lparr> accumulatedMetadata := Some metadata,
           app := (app iv)\<lparr> sessions :=
             patchPlaceholder sid botMsgId
               (\<lambda>msg. msg\<lparr> groundingMetadata := Some metadata \<rparr>)
               (sessions (app iv)) \<rparr> \<rparr>"

definition errorNotice :: string where
  "errorNotice = ''Sorry, I encountered an error processing your request. Please try again.''"

text \<open>The updater of the \<open>catch\<close> block (lines 146 to 155).\<close>

definition onError :: "string \<Rightarrow> string \<Rightarrow> AppState \<Rightarrow> AppState" where
  "onError sid botMsgId st =
     st\<lparr> sessions :=
           patchPlaceholder sid botMsgId
             (\<lambda>msg. msg\<lparr> content := errorNotice, isThinking := Some False \<rparr>)
             (sessions st) \<rparr>"

text \<open>
  Lines 90 to 102: the placeholder, appended to the list to display, stored in the
  session with the captured id; the busy flag raised. \<open>botMsgId\<close> is \<open>uuidv4()\<close>,
  \<open>tMsg\<close> and \<open>tUpd\<close> are the two readings of \<open>Date.now()\<close>.
\<close>

definition botPlaceholder :: "string \<Rightarrow> nat \<Rightarrow> AppState \<Rightarrow> ChatMessage" where
  "botPlaceholder botMsgId tMsg st =
     \<lparr> id_msg = botMsgId, role = Model, content = [], timestamp = tMsg,
       isReasoning = Some (currentModel st = PRO \<and> enableThinking st),
       groundingMetadata = None, isThinking = Some True \<rparr>"

definition pendingState ::
  "string \<Rightarrow> nat \<Rightarrow> nat \<Rightarrow> string \<Rightarrow> ChatMessage list \<Rightarrow> AppState \<Rightarrow> AppState" where
  "pendingState botMsgId tMsg tUpd sid msgs st =
     (let updatedMessages = msgs @ [botPlaceholder botMsgId tMsg st]
      in (updateSessionMessages tUpd sid updatedMessages st)\<lparr> isLoading := True \<rparr>)"

text \<open>
  \<open>generateResponse\<close> (lines 87 to 159). \<open>currentSessionId\<close>, \<open>currentModel\<close>,
  \<open>enableSearch\<close> and \<open>enableThinking\<close> are the constants of the render in which the
  function was created, that is, their values in the state at the invocation. The
  result is the state after \<open>finally\<close> and the requests made to the backend.
\<close>

definition generateResponse ::
  "Backend \<Rightarrow> string \<Rightarrow> nat \<Rightarrow> nat \<Rightarrow> ChatMessage list \<Rightarrow> ChatMessage list \<Rightarrow> string \<Rightarrow>
   AppState \<Rightarrow> AppState \<times> Request list" where
  "generateResponse backend botMsgId tMsg tUpd msgs newHistory currentText st =
     (case currentSessionId st of
        None \<Rightarrow> (st, [])
      | Some sid \<Rightarrow>
          if sid = [] then (st, [])
          else
            (let iv0 = \<lparr> app = pendingState botMsgId tMsg tUpd sid msgs st,
                          accumulatedText = [], accumulatedMetadata = None \<rparr>;
                 (iv1, ending, reqs) =
                   streamGeminiResponse backend (currentModel st) newHistory currentText
                     (enableSearch st) (enableThinking st)
                     (onChunk sid botMsgId) (onGrounding sid botMsgId) iv0;
                 st1 = (case ending of
                          Done \<Rightarrow> app iv1
                        | Failed \<Rightarrow> onError sid botMsgId (app iv1))
             in (st1\<lparr> isLoading := False \<rparr>, reqs)))"

section \<open>The handlers of the presentation layer (src/App.tsx)\<close>

text \<open>
  The template literal \<open>${files.length}\<close> prints a length in decimal.
\<close>

fun decimal :: "nat \<Rightarrow> string" where
  "decimal n =
     (if n < 10 then [''0123456789'' ! n]
      else decimal (n div 10) @ [''0123456789'' ! (n mod 10)])"

declare decimal.simps [simp del]

text \<open>
  \<open>generateTitle\<close> (src/unnamed/part_000, lines 92 to 103). The reply of the backend
  is an exception (\<open>None\<close>) or a response whose \<open>text\<close> may be undefined.
\<close>

definition generateTitle :: "string option option \<Rightarrow> string" where
  "generateTitle reply =
     (case reply of
        None \<Rightarrow> ''New Chat''
      | Some None \<Rightarrow> ''New Chat''
      | Some (Some t) \<Rightarrow> if t \<noteq> [] then t else ''New Chat'')"

text \<open>
  \<open>handleSendMessage\<close> (lines 161 to 192). Of the attached files only their number is
  read. \<open>userMsgId\<close> and \<open>tUser\<close> are the \<open>uuidv4()\<close> and \<open>Date.now()\<close> of the user
  message. The title request is not awaited; its result touches only the title of the
  session, and the model applies it after the generation.
\<close>

definition handleSendMessage ::
  "Backend \<Rightarrow> (string \<Rightarrow> string option option) \<Rightarrow> string \<Rightarrow> nat \<Rightarrow> string \<Rightarrow> nat \<Rightarrow> nat \<Rightarrow>
   string \<Rightarrow> 'f list \<Rightarrow> AppState \<Rightarrow> AppState \<times> Request list" where
  "handleSendMessage backend titleBackend userMsgId tUser botMsgId tMsg tUpd input files st =
     (case currentSession st of
        None \<Rightarrow> (st, [])
      | Some cs \<Rightarrow>
          (let hasAttachments = length files > 0;
               displayContent =
                 (if hasAttachments
                  then input @ ''\<newline>\<newline>[Attached '' @ decimal (length files) @ '' file(s)]''
                  else input);
               userMsg = \<lparr> id_msg = userMsgId, role = User, content = displayContent,
                           timestamp = tUser, isReasoning = None, groundingMetadata = None,
                           isThinking = None \<rparr>;
               newHistory = messages cs;
               messagesWithUser = messages cs @ [userMsg];
               (st1, reqs) = generateResponse backend botMsgId tMsg tUpd
                               messagesWithUser newHistory displayContent st
           in (if length (messages cs) = 0
               then updateSessionTitle (id_session cs)
                      (generateTitle (titleBackend (if input \<noteq> [] then input else ''Attachment''))) st1
               else st1,
               reqs)))"

text \<open>\<open>findIndex\<close> of JavaScript arrays; \<open>-1\<close> is \<open>None\<close>.\<close>

fun findIndex :: "('a \<Rightarrow> bool) \<Rightarrow> 'a list \<Rightarrow> nat option" where
  "findIndex P [] = None"
| "findIndex P (x # xs) = (if P x then Some 0 else map_option Suc (findIndex P xs))"

text \<open>
  \<open>handleEditMessage\<close> (lines 194 to 216). \<open>tEdit\<close> is the \<open>Date.now()\<close> of the
  updated message. \<open>msgIndex\<close> is in range whenever \<open>findIndex\<close> finds it.
\<close>

definition handleEditMessage ::
  "Backend \<Rightarrow> nat \<Rightarrow> string \<Rightarrow> nat \<Rightarrow> nat \<Rightarrow> string \<Rightarrow> string \<Rightarrow> AppState \<Rightarrow>
   AppState \<times> Request list" where
  "handleEditMessage backend tEdit botMsgId tMsg tUpd messageId newContent st =
     (case currentSession st of
        None \<Rightarrow> (st, [])
      | Some cs \<Rightarrow>
          (case findIndex (\<lambda>m. id_msg m = messageId) (messages cs) of
             None \<Rightarrow> (st, [])
           | Some msgIndex \<Rightarrow>
               (let historyBeforeEdit = take msgIndex (messages cs);
                    updatedMsg = (messages cs ! msgIndex)\<lparr> content := newContent, timestamp := tEdit \<rparr>;
                    messagesWithUpdated = historyBeforeEdit @ [updatedMsg]
                in generateResponse backend botMsgId tMsg tUpd
                     messagesWithUpdated historyBeforeEdit newContent st)))"

section \<open>Observations used in the statements\<close>

text \<open>
  The message list of the session with a given id, as the updaters find it, and the
  sequence of events of one invocation applied to its state. The placeholder is the
  last message of the list that \<open>generateResponse\<close> stores.
\<close>

definition sessionMessages :: "string \<Rightarrow> AppState \<Rightarrow> ChatMessage list" where
  "sessionMessages sid st =
     (case List.find (\<lambda>s. id_session s = sid) (sessions st) of
        None \<Rightarrow> []
      | Some s \<Rightarrow> messages s)"

definition runEvents :: "string \<Rightarrow> string \<Rightarrow> Event list \<Rightarrow> Invocation \<Rightarrow> Invocation" where
  "runEvents sid botMsgId evs iv =
     fold (applyCallback (onChunk sid botMsgId) (onGrounding sid botMsgId)) evs iv"

fun deltaTexts :: "Event list \<Rightarrow> string list" where
  "deltaTexts [] = []"
| "deltaTexts (TextDelta t # es) = t # deltaTexts es"
| "deltaTexts (GroundingUpdate g # es) = deltaTexts es"

text \<open>
  What a run of events makes of one message whose id is \<open>botMsgId\<close>, starting from the
  accumulator \<open>acc\<close>; what the end of the stream then makes of it; and the last grounding
  value received.
\<close>

fun msgAfter :: "string \<Rightarrow> Event list \<Rightarrow> ChatMessage \<Rightarrow> ChatMessage" where
  "msgAfter acc [] m = m"
| "msgAfter acc (TextDelta t # es) m =
     msgAfter (acc @ t) es (m\<lparr> content := acc @ t, isThinking := Some False \<rparr>)"
| "msgAfter acc (GroundingUpdate g # es) m =
     msgAfter acc es (m\<lparr> groundingMetadata := Some g \<rparr>)"

fun finalMsg :: "StreamEnd \<Rightarrow> Event list \<Rightarrow> ChatMessage \<Rightarrow> ChatMessage" where
  "finalMsg Done evs m = msgAfter [] evs m"
| "finalMsg Failed evs m = (msgAfter [] evs m)\<lparr> content := errorNotice, isThinking := Some False \<rparr>"

definition lastMetadata :: "Event list \<Rightarrow> GroundingMetadata option \<Rightarrow> GroundingMetadata option" where
  "lastMetadata evs md =
     fold (\<lambda>e md. case e of TextDelta t \<Rightarrow> md | GroundingUpdate g \<Rightarrow> Some g) evs md"

text \<open>Two list transformers that describe the stored session list in closed form.\<close>

definition withMessages :: "string \<Rightarrow> ChatMessage list \<Rightarrow> ChatSession list \<Rightarrow> ChatSession list" where
  "withMessages sid ms ss = map (\<lambda>s. if id_session s = sid then s\<lparr> messages := ms \<rparr> else s) ss"

definition touched :: "nat \<Rightarrow> string \<Rightarrow> ChatSession list \<Rightarrow> ChatSession list" where
  "touched now sid ss = map (\<lambda>s. if id_session s = sid then s\<lparr> updatedAt := now \<rparr> else s) ss"

section \<open>Concrete inputs\<close>

definition textChunk :: "string \<Rightarrow> StreamChunk" where
  "textChunk t = \<lparr> text_c = Some t, candidates = None \<rparr>"

definition exampleMessages :: "ChatMessage list" where
  "exampleMessages =
     [\<lparr> id_msg = ''m1'', role = User, content = ''hi'', timestamp = 1,
        isReasoning = None, groundingMetadata = None, isThinking = None \<rparr>,
      \<lparr> id_msg = ''m2'', role = Model, content = ''hello'', timestamp = 2,
        isReasoning = Some False, groundingMetadata = None, isThinking = Some False \<rparr>]"

definition exampleState :: AppState where
  "exampleState =
     \<lparr> sessions =
         [\<lparr> id_session = ''s1'', title = ''Greetings'', messages = exampleMessages, updatedAt = 2 \<rparr>,
          \<lparr> id_session = ''s0'', title = ''New Chat'', messages = [], updatedAt = 0 \<rparr>],
       currentSessionId = Some ''s1'', currentModel = FLASH,
       enableSearch = False, enableThinking = False, isLoading = False \<rparr>"

text \<open>
  Three response streams: the deltas \<open>Hel\<close> and \<open>lo\<close> and a normal end; the delta
  \<open>Hel\<close> and then an error; one chunk without text and a normal end.
\<close>

definition helloBackend :: Backend where
  "helloBackend req = ([textChunk ''Hel'', textChunk ''lo''], Done)"

definition brokenBackend :: Backend where
  "brokenBackend req = ([textChunk ''Hel''], Failed)"

definition silentBackend :: Backend where
  "silentBackend req = ([\<lparr> text_c = None, candidates = Some [Candidate None] \<rparr>], Done)"

text \<open>A title backend whose request fails.\<close>

definition failingTitleBackend :: "string \<Rightarrow> string option option" where
  "failingTitleBackend prompt = None"

text \<open>
  A registry built by the operations themselves: the state at startup with nothing
  stored; the lone session the effect creates on mount; and three sessions, the oldest
  of which received a message after the second was created.
\<close>

definition initialState :: AppState where
  "initialState =
     \<lparr> sessions = [], currentSessionId = None, currentModel = FLASH,
       enableSearch = False, enableThinking = False, isLoading = False \<rparr>"

definition loneSessionState :: AppState where
  "loneSessionState = afterRender ''b'' 1 0 (sessionEffect ''b'' 1 initialState)"

definition registryExample :: AppState where
  "registryExample =
     createNewSession ''c'' 10
       (fst (generateResponse helloBackend ''b1'' 4 5
               [\<lparr> id_msg = ''u1'', role = User, content = ''hi'', timestamp = 4,
                  isReasoning = None, groundingMetadata = None, isThinking = None \<rparr>]
               [] ''hi''
               (selectSession ''b'' (createNewSession ''a'' 3 loneSessionState))))"

section \<open>The adapter: properties\<close>

lemma streamLoop_fold:
  "streamLoop oc og chunks s =
     fold (applyCallback oc og) (concat (map chunkEvents chunks)) s"
  by (induction chunks arbitrary: s)
     (simp_all add: chunkEvents_def Let_def split: option.split)

lemma streamLoop_log:
  "streamLoop (\<lambda>t log. log @ [TextDelta t]) (\<lambda>g log. log @ [GroundingUpdate g]) chunks log0 =
     log0 @ concat (map chunkEvents chunks)"
  by (induction chunks arbitrary: log0)
     (simp_all add: chunkEvents_def Let_def split: option.split)

lemma adapterEvents_concat: "adapterEvents chunks = concat (map chunkEvents chunks)"
  by (simp add: adapterEvents_def streamLoop_log)

lemma streamLoop_events:
  "streamLoop oc og chunks s =
     fold (applyCallback oc og) (adapterEvents chunks) s"
  by (simp add: adapterEvents_concat streamLoop_fold)

lemma chunkEvents_nonempty: "list_all (\<lambda>e. \<not> isEmptyDelta e) (chunkEvents c)"
  by (simp add: chunkEvents_def split: option.split)

text \<open>
  C8. The thinking configuration of the request: on the pro tier a budget of 16000 when
  extended thinking is enabled and a budget of exactly 0 when it is disabled; on the
  baseline tier none at all, whatever the option says.
\<close>

theorem thinking_config_by_tier:
  "thinkingConfig (buildRequest PRO history message enSearch True) = Some (ThinkingConfig 16000)
   \<and> thinkingBudget (ThinkingConfig 16000) \<noteq> 0
   \<and> thinkingConfig (buildRequest PRO history message enSearch False) = Some (ThinkingConfig 0)
   \<and> thinkingConfig (buildRequest FLASH history message enSearch enThinking) = None"
  by (simp add: buildRequest_def thinkingConfigFor_def Let_def)

text \<open>
  C9. The events the adapter delivers for a stream of chunks are, chunk by chunk, a text
  delta exactly when the chunk's text is defined and non-empty, followed by a grounding
  update exactly when the chunk's first candidate carries grounding metadata; so no
  delivered text delta is the empty string.
\<close>

theorem adapter_never_delivers_empty_delta:
  "adapterEvents chunks = concat (map chunkEvents chunks)
   \<and> list_all (\<lambda>e. \<not> isEmptyDelta e) (adapterEvents chunks)
   \<and> streamLoop oc og chunks s =
       fold (applyCallback oc og) (adapterEvents chunks) s"
proof (intro conjI)
  show "adapterEvents chunks = concat (map chunkEvents chunks)"
    by (rule adapterEvents_concat)
  show "list_all (\<lambda>e. \<not> isEmptyDelta e) (adapterEvents chunks)"
    unfolding adapterEvents_concat
    by (induction chunks) (simp_all add: chunkEvents_nonempty)
  show "streamLoop oc og chunks s =
       fold (applyCallback oc og) (adapterEvents chunks) s"
    by (rule streamLoop_events)
qed

section \<open>The generation engine: properties\<close>

subsection \<open>A run of events in closed form\<close>

lemma find_withMessages:
  "List.find (\<lambda>s. id_session s = sid) (withMessages sid ms ss) =
     map_option (\<lambda>s. s\<lparr> messages := ms \<rparr>) (List.find (\<lambda>s. id_session s = sid) ss)"
  by (induction ss) (simp_all add: withMessages_def)

lemma withMessages_absent:
  "List.find (\<lambda>s. id_session s = sid) ss = None \<Longrightarrow> withMessages sid ms ss = ss"
  by (induction ss) (simp_all add: withMessages_def split: if_splits)

lemma patch_withMessages:
  "patchPlaceholder sid b f (withMessages sid ms ss) =
     withMessages sid (map (\<lambda>m. if id_msg m = b then f m else m) ms) ss"
proof (cases "List.find (\<lambda>s. id_session s = sid) ss")
  case None
  then show ?thesis
    by (simp add: patchPlaceholder_def find_withMessages withMessages_absent)
next
  case (Some s)
  then show ?thesis
    by (simp add: patchPlaceholder_def find_withMessages Let_def)
       (simp add: withMessages_def)
qed

lemma patch_twice:
  assumes "\<And>m. id_msg (f m) = id_msg m"
  shows "map (\<lambda>m. if id_msg m = b then h m else m) (map (\<lambda>m. if id_msg m = b then f m else m) ms) =
         map (\<lambda>m. if id_msg m = b then h (f m) else m) ms"
  by (induction ms) (simp_all add: assms)

lemma runEvents_withMessages:
  assumes "sessions (app iv) = withMessages sid ms ss"
  shows "runEvents sid b evs iv =
     iv\<lparr> app := (app iv)\<lparr> sessions :=
             withMessages sid (map (\<lambda>m. if id_msg m = b then msgAfter (accumulatedText iv) evs m else m) ms) ss \<rparr>,
         accumulatedText := accumulatedText iv @ concat (deltaTexts evs),
         accumulatedMetadata := lastMetadata evs (accumulatedMetadata iv) \<rparr>"
  using assms
proof (induction evs arbitrary: iv ms)
  case Nil
  then show ?case by (simp add: runEvents_def lastMetadata_def cong: if_cong)
next
  case (Cons e evs)
  show ?case
  proof (cases e)
    case (TextDelta t)
    let ?ms = "map (\<lambda>m. if id_msg m = b then m\<lparr> content := accumulatedText iv @ t, isThinking := Some False \<rparr> else m) ms"
    let ?iv = "onChunk sid b t iv"
    have s: "sessions (app ?iv) = withMessages sid ?ms ss"
      by (simp add: onChunk_def Let_def Cons.prems patch_withMessages)
    have m: "map (\<lambda>m. if id_msg m = b then msgAfter (accumulatedText iv @ t) evs m else m) ?ms
           = map (\<lambda>m. if id_msg m = b then msgAfter (accumulatedText iv) (e # evs) m else m) ms"
      by (simp add: TextDelta patch_twice del: map_map)
    have a: "accumulatedText ?iv = accumulatedText iv @ t"
      and d: "accumulatedMetadata ?iv = accumulatedMetadata iv"
      by (simp_all add: onChunk_def Let_def)
    have "runEvents sid b (e # evs) iv = runEvents sid b evs ?iv"
      by (simp add: runEvents_def TextDelta)
    also have "\<dots> = ?iv\<lparr> app := (app ?iv)\<lparr> sessions :=
             withMessages sid (map (\<lambda>m. if id_msg m = b then msgAfter (accumulatedText iv) (e # evs) m else m) ms) ss \<rparr>,
         accumulatedText := accumulatedText iv @ t @ concat (deltaTexts evs),
         accumulatedMetadata := lastMetadata evs (accumulatedMetadata iv) \<rparr>"
      unfolding Cons.IH [OF s] m a d by simp
    finally show ?thesis
      by (simp add: TextDelta onChunk_def Let_def lastMetadata_def)
  next
    case (GroundingUpdate g)
    let ?ms = "map (\<lambda>m. if id_msg m = b then m\<lparr> groundingMetadata := Some g \<rparr> else m) ms"
    let ?iv = "onGrounding sid b g iv"
    have s: "sessions (app ?iv) = withMessages sid ?ms ss"
      by (simp add: onGrounding_def Cons.prems patch_withMessages)
    have m: "map (\<lambda>m. if id_msg m = b then msgAfter (accumulatedText iv) evs m else m) ?ms
           = map (\<lambda>m. if id_msg m = b then msgAfter (accumulatedText iv) (e # evs) m else m) ms"
      by (simp add: GroundingUpdate patch_twice del: map_map)
    have a: "accumulatedText ?iv = accumulatedText iv"
      and d: "accumulatedMetadata ?iv = Some g"
      by (simp_all add: onGrounding_def)
    have "runEvents sid b (e # evs) iv = runEvents sid b evs ?iv"
      by (simp add: runEvents_def GroundingUpdate)
    also have "\<dots> = ?iv\<lparr> app := (app ?iv)\<lparr> sessions :=
             withMessages sid (map (\<lambda>m. if id_msg m = b then msgAfter (accumulatedText iv) (e # evs) m else m) ms) ss \<rparr>,
         accumulatedText := accumulatedText iv @ concat (deltaTexts evs),
         accumulatedMetadata := lastMetadata evs (Some g) \<rparr>"
      unfolding Cons.IH [OF s] m a d by simp
    finally show ?thesis
      by (simp add: GroundingUpdate onGrounding_def lastMetadata_def)
  qed
qed

lemma find_touched:
  "List.find (\<lambda>s. id_session s = sid) (touched now sid ss) =
     map_option (\<lambda>s. s\<lparr> updatedAt := now \<rparr>) (List.find (\<lambda>s. id_session s = sid) ss)"
  by (induction ss) (simp_all add: touched_def)

lemma pendingState_eq:
  "pendingState b tMsg tUpd sid msgs st =
     st\<lparr> sessions := withMessages sid (msgs @ [botPlaceholder b tMsg st]) (touched tUpd sid (sessions st)),
         isLoading := True \<rparr>"
  by (simp add: pendingState_def updateSessionMessages_def withMessages_def touched_def Let_def o_def
           cong: if_cong)

lemma sessionMessages_withMessages:
  assumes "List.find (\<lambda>s. id_session s = sid) ss = Some s0"
    and "sessions a = withMessages sid ms (touched now sid ss)"
  shows "sessionMessages sid a = ms"
  by (simp add: sessionMessages_def find_withMessages find_touched assms)

lemma msgAfter_id [simp]: "id_msg (msgAfter acc evs m) = id_msg m"
  by (induction acc evs m rule: msgAfter.induct) simp_all

lemma msgAfter_content:
  "content (msgAfter acc evs m) = (if deltaTexts evs = [] then content m else acc @ concat (deltaTexts evs))"
  by (induction acc evs m rule: msgAfter.induct) simp_all

lemma msgAfter_isThinking:
  "isThinking (msgAfter acc evs m) = (if deltaTexts evs = [] then isThinking m else Some False)"
  by (induction acc evs m rule: msgAfter.induct) simp_all

lemma botPlaceholder_id [simp]: "id_msg (botPlaceholder b tMsg st) = b"
  by (simp add: botPlaceholder_def)

lemma pendingState_sessions:
  "sessions (pendingState b tMsg tUpd sid msgs st) =
     withMessages sid (msgs @ [botPlaceholder b tMsg st]) (touched tUpd sid (sessions st))"
  by (simp add: pendingState_eq)

lemma run_from_pending:
  "app (runEvents sid b evs
          \<lparr> app = pendingState b tMsg tUpd sid msgs st, accumulatedText = [], accumulatedMetadata = None \<rparr>) =
     st\<lparr> sessions := withMessages sid
            (map (\<lambda>m. if id_msg m = b then msgAfter [] evs m else m)
                 (msgs @ [botPlaceholder b tMsg st]))
            (touched tUpd sid (sessions st)),
         isLoading := True \<rparr>"
proof -
  let ?iv0 = "\<lparr> app = pendingState b tMsg tUpd sid msgs st, accumulatedText = [], accumulatedMetadata = None \<rparr>"
  have s: "sessions (app ?iv0) = withMessages sid (msgs @ [botPlaceholder b tMsg st]) (touched tUpd sid (sessions st))"
    by (simp add: pendingState_sessions)
  show ?thesis
    unfolding runEvents_withMessages [OF s]
    by (cases st) (simp add: pendingState_eq del: map_append cong: if_cong)
qed

lemma stream_from_pending:
  "app (streamLoop (onChunk sid b) (onGrounding sid b) chunks
          \<lparr> app = pendingState b tMsg tUpd sid msgs st, accumulatedText = [], accumulatedMetadata = None \<rparr>) =
     st\<lparr> sessions := withMessages sid
            (map (\<lambda>m. if id_msg m = b then msgAfter [] (adapterEvents chunks) m else m)
                 (msgs @ [botPlaceholder b tMsg st]))
            (touched tUpd sid (sessions st)),
         isLoading := True \<rparr>"
  using run_from_pending [of sid b "adapterEvents chunks" tMsg tUpd msgs st]
  by (simp add: streamLoop_events runEvents_def)

lemma generateResponse_run:
  assumes "currentSessionId st = Some sid" and "sid \<noteq> []"
    and "backend (buildRequest (currentModel st) hist turn (enableSearch st) (enableThinking st)) = (chunks, ending)"
  shows "generateResponse backend b tMsg tUpd msgs hist turn st =
     (st\<lparr> sessions := withMessages sid
            (map (\<lambda>m. if id_msg m = b then finalMsg ending (adapterEvents chunks) m else m)
                 (msgs @ [botPlaceholder b tMsg st]))
            (touched tUpd sid (sessions st)),
          isLoading := False \<rparr>,
      [buildRequest (currentModel st) hist turn (enableSearch st) (enableThinking st)])"
proof -
  let ?iv0 = "\<lparr> app = pendingState b tMsg tUpd sid msgs st, accumulatedText = [], accumulatedMetadata = None \<rparr>"
  let ?req = "buildRequest (currentModel st) hist turn (enableSearch st) (enableThinking st)"
  let ?st1 = "app (streamLoop (onChunk sid b) (onGrounding sid b) chunks ?iv0)"
  have gen: "generateResponse backend b tMsg tUpd msgs hist turn st =
      ((case ending of Done \<Rightarrow> ?st1 | Failed \<Rightarrow> onError sid b ?st1)\<lparr> isLoading := False \<rparr>, [?req])"
    using assms by (simp add: generateResponse_def streamGeminiResponse_def Let_def)
  show ?thesis
  proof (cases ending)
    case Done
    show ?thesis
      unfolding gen stream_from_pending by (simp add: Done del: map_append cong: if_cong)
  next
    case Failed
    have "map (\<lambda>m. if id_msg m = b then m\<lparr> content := errorNotice, isThinking := Some False \<rparr> else m)
            (map (\<lambda>m. if id_msg m = b then msgAfter [] (adapterEvents chunks) m else m)
                 (msgs @ [botPlaceholder b tMsg st]))
        = map (\<lambda>m. if id_msg m = b then finalMsg ending (adapterEvents chunks) m else m)
                 (msgs @ [botPlaceholder b tMsg st])"
      by (simp add: Failed patch_twice del: map_map map_append)
    then show ?thesis
      unfolding gen stream_from_pending
      by (simp add: Failed onError_def patch_withMessages del: map_map map_append)
  qed
qed


lemma last_patched:
  "last (map (\<lambda>m. if id_msg m = b then f m else m) (msgs @ [botPlaceholder b tMsg st])) = f (botPlaceholder b tMsg st)"
  by simp

lemma generateResponse_placeholder:
  assumes "currentSessionId st = Some sid" and "sid \<noteq> []"
    and "List.find (\<lambda>s. id_session s = sid) (sessions st) = Some s0"
    and "backend (buildRequest (currentModel st) hist turn (enableSearch st) (enableThinking st)) = (chunks, ending)"
  shows "last (sessionMessages sid (fst (generateResponse backend b tMsg tUpd msgs hist turn st))) =
           finalMsg ending (adapterEvents chunks) (botPlaceholder b tMsg st)"
proof -
  have "generateResponse backend b tMsg tUpd msgs hist turn st =
     (st\<lparr> sessions := withMessages sid
            (map (\<lambda>m. if id_msg m = b then finalMsg ending (adapterEvents chunks) m else m)
                 (msgs @ [botPlaceholder b tMsg st]))
            (touched tUpd sid (sessions st)),
          isLoading := False \<rparr>,
      [buildRequest (currentModel st) hist turn (enableSearch st) (enableThinking st)])"
    using assms(1,2,4) by (rule generateResponse_run)
  then have "sessionMessages sid (fst (generateResponse backend b tMsg tUpd msgs hist turn st)) =
      map (\<lambda>m. if id_msg m = b then finalMsg ending (adapterEvents chunks) m else m) (msgs @ [botPlaceholder b tMsg st])"
    by (intro sessionMessages_withMessages [OF assms(3), where now = tUpd]) simp
  then show ?thesis by (simp only: last_patched)
qed

subsection \<open>The content of the placeholder\<close>

text \<open>
  C4. When the session with the captured id exists and the stream ends without error,
  the content of the placeholder (the last message of that session) is at the end the
  concatenation, in delivery order, of the text deltas the adapter delivered; and after
  every prefix of the delivered events it is the concatenation of the deltas of that
  prefix.
\<close>

theorem streamed_content_is_concatenation:
  assumes "currentSessionId st = Some sid" and "sid \<noteq> []"
    and "List.find (\<lambda>s. id_session s = sid) (sessions st) = Some s0"
    and "backend (buildRequest (currentModel st) hist turn (enableSearch st) (enableThinking st)) = (chunks, Done)"
  shows "content (last (sessionMessages sid (fst (generateResponse backend b tMsg tUpd msgs hist turn st)))) =
           concat (deltaTexts (adapterEvents chunks))
       \<and> id_msg (last (sessionMessages sid (fst (generateResponse backend b tMsg tUpd msgs hist turn st)))) = b
       \<and> (\<forall>k. content (last (sessionMessages sid (app (runEvents sid b (take k (adapterEvents chunks))
                  \<lparr> app = pendingState b tMsg tUpd sid msgs st, accumulatedText = [], accumulatedMetadata = None \<rparr>)))) =
           concat (deltaTexts (take k (adapterEvents chunks))))"
proof (intro conjI allI)
  have fin: "last (sessionMessages sid (fst (generateResponse backend b tMsg tUpd msgs hist turn st))) =
           finalMsg Done (adapterEvents chunks) (botPlaceholder b tMsg st)"
    using assms by (rule generateResponse_placeholder)
  show "content (last (sessionMessages sid (fst (generateResponse backend b tMsg tUpd msgs hist turn st)))) =
           concat (deltaTexts (adapterEvents chunks))"
    unfolding fin by (simp add: msgAfter_content botPlaceholder_def)
  show "id_msg (last (sessionMessages sid (fst (generateResponse backend b tMsg tUpd msgs hist turn st)))) = b"
    unfolding fin by simp
next
  fix k
  let ?iv0 = "\<lparr> app = pendingState b tMsg tUpd sid msgs st, accumulatedText = [], accumulatedMetadata = None \<rparr>"
  let ?evs = "take k (adapterEvents chunks)"
  have "sessionMessages sid (app (runEvents sid b ?evs ?iv0)) =
          map (\<lambda>m. if id_msg m = b then msgAfter [] ?evs m else m) (msgs @ [botPlaceholder b tMsg st])"
    unfolding run_from_pending
    by (intro sessionMessages_withMessages [OF assms(3), where now = tUpd]) simp
  then have "last (sessionMessages sid (app (runEvents sid b ?evs ?iv0))) = msgAfter [] ?evs (botPlaceholder b tMsg st)"
    by (simp only: last_patched)
  then show "content (last (sessionMessages sid (app (runEvents sid b ?evs ?iv0)))) = concat (deltaTexts ?evs)"
    by (simp add: msgAfter_content botPlaceholder_def)
qed

theorem streamed_content_witness:
  "currentSessionId exampleState = Some ''s1''
   \<and> List.find (\<lambda>s. id_session s = ''s1'') (sessions exampleState) = Some (hd (sessions exampleState))
   \<and> adapterEvents [textChunk ''Hel'', textChunk ''lo''] = [TextDelta ''Hel'', TextDelta ''lo'']
   \<and> content (last (sessionMessages ''s1''
         (fst (generateResponse helloBackend ''b1'' 3 4 exampleMessages [] ''hi'' exampleState)))) = ''Hello''
   \<and> content (last (sessionMessages ''s1'' (app (runEvents ''s1'' ''b1'' [TextDelta ''Hel'']
         \<lparr> app = pendingState ''b1'' 3 4 ''s1'' exampleMessages exampleState,
           accumulatedText = [], accumulatedMetadata = None \<rparr>)))) = ''Hel''"
proof -
  have ev: "adapterEvents [textChunk ''Hel'', textChunk ''lo''] = [TextDelta ''Hel'', TextDelta ''lo'']"
    by (simp add: adapterEvents_concat chunkEvents_def textChunk_def chunkGrounding_def)
  have cur: "currentSessionId exampleState = Some ''s1''"
    and found: "List.find (\<lambda>s. id_session s = ''s1'') (sessions exampleState) = Some (hd (sessions exampleState))"
    by (simp_all add: exampleState_def)
  have stream: "helloBackend (buildRequest (currentModel exampleState) [] ''hi''
      (enableSearch exampleState) (enableThinking exampleState)) = ([textChunk ''Hel'', textChunk ''lo''], Done)"
    by (simp add: helloBackend_def)
  have ne: "''s1'' \<noteq> []" by simp
  note inst = streamed_content_is_concatenation [where backend = helloBackend and b = "''b1''" and tMsg = 3 and tUpd = 4 and msgs = exampleMessages, OF cur ne found stream]
  have one: "take 1 (adapterEvents [textChunk ''Hel'', textChunk ''lo'']) = [TextDelta ''Hel'']"
    by (simp add: ev)
  from inst have "content (last (sessionMessages ''s1'' (app (runEvents ''s1'' ''b1''
         (take 1 (adapterEvents [textChunk ''Hel'', textChunk ''lo'']))
         \<lparr> app = pendingState ''b1'' 3 4 ''s1'' exampleMessages exampleState,
           accumulatedText = [], accumulatedMetadata = None \<rparr>)))) =
       concat (deltaTexts (take 1 (adapterEvents [textChunk ''Hel'', textChunk ''lo''])))"
    by blast
  then have mid: "content (last (sessionMessages ''s1'' (app (runEvents ''s1'' ''b1'' [TextDelta ''Hel'']
         \<lparr> app = pendingState ''b1'' 3 4 ''s1'' exampleMessages exampleState,
           accumulatedText = [], accumulatedMetadata = None \<rparr>)))) = ''Hel''"
    unfolding one by simp
  from inst have fin: "content (last (sessionMessages ''s1''
         (fst (generateResponse helloBackend ''b1'' 3 4 exampleMessages [] ''hi'' exampleState)))) = ''Hello''"
    by (simp add: ev)
  show ?thesis using cur found ev fin mid by blast
qed

subsection \<open>The end of the stream\<close>

lemma msgAfter_fields [simp]:
  "role (msgAfter acc evs m) = role m"
  "timestamp (msgAfter acc evs m) = timestamp m"
  "isReasoning (msgAfter acc evs m) = isReasoning m"
  by (induction acc evs m rule: msgAfter.induct) simp_all

lemma generateResponse_flags:
  assumes "currentSessionId st = Some sid" and "sid \<noteq> []"
    and "backend (buildRequest (currentModel st) hist turn (enableSearch st) (enableThinking st)) = (chunks, ending)"
  shows "isLoading (fst (generateResponse backend b tMsg tUpd msgs hist turn st)) = False"
    and "snd (generateResponse backend b tMsg tUpd msgs hist turn st) =
           [buildRequest (currentModel st) hist turn (enableSearch st) (enableThinking st)]"
    and "currentSessionId (fst (generateResponse backend b tMsg tUpd msgs hist turn st)) = currentSessionId st"
proof -
  have "generateResponse backend b tMsg tUpd msgs hist turn st =
     (st\<lparr> sessions := withMessages sid
            (map (\<lambda>m. if id_msg m = b then finalMsg ending (adapterEvents chunks) m else m)
                 (msgs @ [botPlaceholder b tMsg st]))
            (touched tUpd sid (sessions st)),
          isLoading := False \<rparr>,
      [buildRequest (currentModel st) hist turn (enableSearch st) (enableThinking st)])"
    using assms by (rule generateResponse_run)
  then show "isLoading (fst (generateResponse backend b tMsg tUpd msgs hist turn st)) = False"
    and "snd (generateResponse backend b tMsg tUpd msgs hist turn st) =
           [buildRequest (currentModel st) hist turn (enableSearch st) (enableThinking st)]"
    and "currentSessionId (fst (generateResponse backend b tMsg tUpd msgs hist turn st)) = currentSessionId st"
    by simp_all
qed

lemma exampleState_current: "currentSessionId exampleState = Some ''s1''"
  by (simp add: exampleState_def)

lemma exampleState_found:
  "List.find (\<lambda>s. id_session s = ''s1'') (sessions exampleState) = Some (hd (sessions exampleState))"
  by (simp add: exampleState_def)

lemma brokenBackend_stream:
  "brokenBackend (buildRequest (currentModel exampleState) hist turn
      (enableSearch exampleState) (enableThinking exampleState)) = ([textChunk ''Hel''], Failed)"
  by (simp add: brokenBackend_def)

text \<open>
  C6. When the session with the captured id exists and the stream ends with an error,
  whatever was delivered before, the placeholder's content is the fixed error notice,
  its \<open>isThinking\<close> is false, the busy flag is lowered, and the invocation has made
  exactly one request to the backend.
\<close>

theorem adapter_error_is_terminal:
  assumes "currentSessionId st = Some sid" and "sid \<noteq> []"
    and "List.find (\<lambda>s. id_session s = sid) (sessions st) = Some s0"
    and "backend (buildRequest (currentModel st) hist turn (enableSearch st) (enableThinking st)) = (chunks, Failed)"
  shows "content (last (sessionMessages sid (fst (generateResponse backend b tMsg tUpd msgs hist turn st)))) =
           ''Sorry, I encountered an error processing your request. Please try again.''
       \<and> isThinking (last (sessionMessages sid (fst (generateResponse backend b tMsg tUpd msgs hist turn st)))) = Some False
       \<and> id_msg (last (sessionMessages sid (fst (generateResponse backend b tMsg tUpd msgs hist turn st)))) = b
       \<and> isLoading (fst (generateResponse backend b tMsg tUpd msgs hist turn st)) = False
       \<and> snd (generateResponse backend b tMsg tUpd msgs hist turn st) =
           [buildRequest (currentModel st) hist turn (enableSearch st) (enableThinking st)]"
proof -
  have fin: "last (sessionMessages sid (fst (generateResponse backend b tMsg tUpd msgs hist turn st))) =
           finalMsg Failed (adapterEvents chunks) (botPlaceholder b tMsg st)"
    using assms by (rule generateResponse_placeholder)
  show ?thesis
    unfolding fin
    using generateResponse_flags(1,2) [of st sid backend hist turn chunks Failed b tMsg tUpd msgs] assms
    by (simp add: errorNotice_def)
qed

theorem adapter_error_witness:
  "currentSessionId exampleState = Some ''s1''
   \<and> content (last (sessionMessages ''s1''
         (fst (generateResponse brokenBackend ''b1'' 3 4 exampleMessages [] ''hi'' exampleState)))) =
       ''Sorry, I encountered an error processing your request. Please try again.''
   \<and> isThinking (last (sessionMessages ''s1''
         (fst (generateResponse brokenBackend ''b1'' 3 4 exampleMessages [] ''hi'' exampleState)))) = Some False
   \<and> isLoading (fst (generateResponse brokenBackend ''b1'' 3 4 exampleMessages [] ''hi'' exampleState)) = False
   \<and> length (snd (generateResponse brokenBackend ''b1'' 3 4 exampleMessages [] ''hi'' exampleState)) = 1"
proof -
  have ne: "''s1'' \<noteq> []" by simp
  note inst = adapter_error_is_terminal [where backend = brokenBackend and b = "''b1''" and tMsg = 3
      and tUpd = 4 and msgs = exampleMessages and hist = "[]" and turn = "''hi''",
      OF exampleState_current ne exampleState_found brokenBackend_stream]
  show ?thesis using inst exampleState_current by simp
qed

text \<open>
  C2, as the code has it. When the stream ends with an error, the content the
  placeholder had just before (the concatenation of the deltas delivered so far) is
  replaced as a whole by the fixed error notice: the partial text is not kept.
\<close>

theorem error_replaces_partial_text:
  assumes "currentSessionId st = Some sid" and "sid \<noteq> []"
    and "List.find (\<lambda>s. id_session s = sid) (sessions st) = Some s0"
    and "backend (buildRequest (currentModel st) hist turn (enableSearch st) (enableThinking st)) = (chunks, Failed)"
  shows "content (last (sessionMessages sid (app (runEvents sid b (adapterEvents chunks)
                  \<lparr> app = pendingState b tMsg tUpd sid msgs st, accumulatedText = [], accumulatedMetadata = None \<rparr>)))) =
           concat (deltaTexts (adapterEvents chunks))
       \<and> content (last (sessionMessages sid (fst (generateResponse backend b tMsg tUpd msgs hist turn st)))) =
           errorNotice"
proof (intro conjI)
  let ?iv0 = "\<lparr> app = pendingState b tMsg tUpd sid msgs st, accumulatedText = [], accumulatedMetadata = None \<rparr>"
  let ?evs = "adapterEvents chunks"
  have "sessionMessages sid (app (runEvents sid b ?evs ?iv0)) =
          map (\<lambda>m. if id_msg m = b then msgAfter [] ?evs m else m) (msgs @ [botPlaceholder b tMsg st])"
    unfolding run_from_pending
    by (intro sessionMessages_withMessages [OF assms(3), where now = tUpd]) simp
  then have "last (sessionMessages sid (app (runEvents sid b ?evs ?iv0))) = msgAfter [] ?evs (botPlaceholder b tMsg st)"
    by (simp only: last_patched)
  then show "content (last (sessionMessages sid (app (runEvents sid b ?evs ?iv0)))) = concat (deltaTexts ?evs)"
    by (simp add: msgAfter_content botPlaceholder_def)
  have fin: "last (sessionMessages sid (fst (generateResponse backend b tMsg tUpd msgs hist turn st))) =
           finalMsg Failed (adapterEvents chunks) (botPlaceholder b tMsg st)"
    using assms by (rule generateResponse_placeholder)
  show "content (last (sessionMessages sid (fst (generateResponse backend b tMsg tUpd msgs hist turn st)))) = errorNotice"
    unfolding fin by simp
qed

theorem error_replaces_partial_text_witness:
  "currentSessionId exampleState = Some ''s1''
   \<and> content (last (sessionMessages ''s1'' (app (runEvents ''s1'' ''b1'' (adapterEvents [textChunk ''Hel''])
         \<lparr> app = pendingState ''b1'' 3 4 ''s1'' exampleMessages exampleState,
           accumulatedText = [], accumulatedMetadata = None \<rparr>)))) = ''Hel''
   \<and> content (last (sessionMessages ''s1''
         (fst (generateResponse brokenBackend ''b1'' 3 4 exampleMessages [] ''hi'' exampleState)))) = errorNotice"
proof -
  have ne: "''s1'' \<noteq> []" by simp
  have ev: "adapterEvents [textChunk ''Hel''] = [TextDelta ''Hel'']"
    by (simp add: adapterEvents_concat chunkEvents_def textChunk_def chunkGrounding_def)
  note inst = error_replaces_partial_text [where backend = brokenBackend and b = "''b1''" and tMsg = 3
      and tUpd = 4 and msgs = exampleMessages and hist = "[]" and turn = "''hi''",
      OF exampleState_current ne exampleState_found brokenBackend_stream]
  show ?thesis using inst exampleState_current by (simp add: ev)
qed

lemmas engine_defs =
  generateResponse_def streamGeminiResponse_def pendingState_def updateSessionMessages_def
  botPlaceholder_def onChunk_def onGrounding_def onError_def patchPlaceholder_def
  sessionMessages_def buildRequest_def chunkGrounding_def textChunk_def runEvents_def
  exampleState_def exampleMessages_def

text \<open>
  C2 as stated fails: after the delta \<open>Hel\<close> the placeholder shows \<open>Hel\<close>; the stream
  then fails, and the final content no longer contains \<open>Hel\<close>.
\<close>

theorem partial_text_discarded_counterexample:
  "content (last (sessionMessages ''s1'' (app (runEvents ''s1'' ''b1'' (adapterEvents [textChunk ''Hel''])
       \<lparr> app = pendingState ''b1'' 3 4 ''s1'' exampleMessages exampleState,
         accumulatedText = [], accumulatedMetadata = None \<rparr>)))) = ''Hel''
   \<and> \<not> sublist ''Hel'' (content (last (sessionMessages ''s1''
         (fst (generateResponse brokenBackend ''b1'' 3 4 exampleMessages [] ''hi'' exampleState)))))"
  by (simp add: engine_defs brokenBackend_def adapterEvents_def Let_def errorNotice_def sublist_Cons_right)

lemma placeholder_isThinking:
  assumes "currentSessionId st = Some sid" and "sid \<noteq> []"
    and "List.find (\<lambda>s. id_session s = sid) (sessions st) = Some s0"
    and "backend (buildRequest (currentModel st) hist turn (enableSearch st) (enableThinking st)) = (chunks, ending)"
  shows "isThinking (last (sessionMessages sid (fst (generateResponse backend b tMsg tUpd msgs hist turn st)))) =
           Some (ending = Done \<and> deltaTexts (adapterEvents chunks) = [])"
proof -
  have fin: "last (sessionMessages sid (fst (generateResponse backend b tMsg tUpd msgs hist turn st))) =
           finalMsg ending (adapterEvents chunks) (botPlaceholder b tMsg st)"
    using assms by (rule generateResponse_placeholder)
  show ?thesis
    unfolding fin by (cases ending) (simp_all add: msgAfter_isThinking botPlaceholder_def)
qed

text \<open>
  C1. A stream of one chunk without text that ends normally: no callback clears
  \<open>isThinking\<close>, the \<open>try\<close> block has no statement after the adapter call, and
  \<open>finally\<close> only lowers the busy flag. The placeholder keeps \<open>isThinking = true\<close>.
\<close>

theorem thinking_stuck_on_silent_stream:
  "isThinking (last (sessionMessages ''s1''
      (fst (generateResponse silentBackend ''b1'' 3 4 exampleMessages [] ''hi'' exampleState)))) = Some True
   \<and> isLoading (fst (generateResponse silentBackend ''b1'' 3 4 exampleMessages [] ''hi'' exampleState)) = False"
  by (simp add: engine_defs silentBackend_def Let_def)

subsection \<open>The frame of one streaming event\<close>

lemma patch_distinct:
  assumes "distinct (map id_session ss)"
  shows "patchPlaceholder sid b f ss =
     map (\<lambda>s. if id_session s = sid
               then s\<lparr> messages := map (\<lambda>m. if id_msg m = b then f m else m) (messages s) \<rparr>
               else s) ss"
proof (cases "List.find (\<lambda>s. id_session s = sid) ss")
  case None
  then have "\<forall>s \<in> set ss. id_session s \<noteq> sid"
    by (auto simp: find_None_iff)
  then have "map (\<lambda>s. if id_session s = sid
               then s\<lparr> messages := map (\<lambda>m. if id_msg m = b then f m else m) (messages s) \<rparr>
               else s) ss = ss"
    by (induction ss) simp_all
  with None show ?thesis by (simp add: patchPlaceholder_def)
next
  case (Some s0)
  then have s0: "s0 \<in> set ss" "id_session s0 = sid"
    by (auto simp: find_Some_iff)
  have inj: "inj_on id_session (set ss)"
    using assms by (simp add: distinct_map)
  have same: "s = s0" if "s \<in> set ss" "id_session s = sid" for s
    using inj s0 that by (auto dest: inj_onD)
  have "map (\<lambda>s. if id_session s = sid
               then s\<lparr> messages := map (\<lambda>m. if id_msg m = b then f m else m) (messages s0) \<rparr>
               else s) ss =
        map (\<lambda>s. if id_session s = sid
               then s\<lparr> messages := map (\<lambda>m. if id_msg m = b then f m else m) (messages s) \<rparr>
               else s) ss"
    by (rule map_cong) (auto dest: same)
  with Some show ?thesis by (simp add: patchPlaceholder_def Let_def)
qed

lemma map_update_unique:
  assumes "distinct (map g xs)" and "k < length xs" and "g (xs ! k) = v"
  shows "map (\<lambda>x. if g x = v then h x else x) xs = xs[k := h (xs ! k)]"
proof (rule nth_equalityI)
  show "length (map (\<lambda>x. if g x = v then h x else x) xs) = length (xs[k := h (xs ! k)])"
    by simp
next
  fix i
  assume "i < length (map (\<lambda>x. if g x = v then h x else x) xs)"
  then have i: "i < length xs" by simp
  show "map (\<lambda>x. if g x = v then h x else x) xs ! i = xs[k := h (xs ! k)] ! i"
  proof (cases "i = k")
    case True
    with assms show ?thesis by simp
  next
    case False
    have "map g xs ! i \<noteq> map g xs ! k"
      using assms(1,2) i False by (simp add: nth_eq_iff_index_eq del: nth_map)
    then have "g (xs ! i) \<noteq> v"
      using assms(2,3) i by simp
    with i False show ?thesis by simp
  qed
qed

lemma msgAfter_single:
  "msgAfter acc [TextDelta t] = (\<lambda>m. m\<lparr> content := acc @ t, isThinking := Some False \<rparr>)"
  "msgAfter acc [GroundingUpdate g] = (\<lambda>m. m\<lparr> groundingMetadata := Some g \<rparr>)"
  by (rule ext, simp)+

lemma applyCallback_sessions:
  "sessions (app (applyCallback (onChunk sid b) (onGrounding sid b) e iv)) =
     patchPlaceholder sid b (msgAfter (accumulatedText iv) [e]) (sessions (app iv))"
  by (cases e) (simp_all add: onChunk_def onGrounding_def Let_def msgAfter_single)

text \<open>
  C5. One streaming event (a text delta or a grounding update) of an invocation that
  captured the session id \<open>sid\<close> and created the placeholder \<open>b\<close>, applied to any state
  in which ids are unique, the session \<open>sid\<close> sits at position \<open>j\<close> and the placeholder
  at position \<open>k\<close> of its messages: the new session list is the old one with exactly
  that message of exactly that session replaced; no other field of the state changes;
  and selecting another session beforehand changes neither the target nor the stored
  lists, and stays selected.
\<close>

theorem streaming_event_replaces_one_message:
  assumes "distinct (map id_session (sessions (app iv)))"
    and "j < length (sessions (app iv))"
    and "id_session (sessions (app iv) ! j) = sid"
    and "distinct (map id_msg (messages (sessions (app iv) ! j)))"
    and "k < length (messages (sessions (app iv) ! j))"
    and "id_msg (messages (sessions (app iv) ! j) ! k) = b"
  shows "sessions (app (applyCallback (onChunk sid b) (onGrounding sid b) e iv)) =
           (sessions (app iv))[j := (sessions (app iv) ! j)\<lparr> messages :=
              (messages (sessions (app iv) ! j))[k :=
                 msgAfter (accumulatedText iv) [e] (messages (sessions (app iv) ! j) ! k)] \<rparr>]
       \<and> (app (applyCallback (onChunk sid b) (onGrounding sid b) e iv))\<lparr> sessions := sessions (app iv) \<rparr> = app iv
       \<and> sessions (app (applyCallback (onChunk sid b) (onGrounding sid b) e
             (iv\<lparr> app := selectSession other (app iv) \<rparr>))) =
           sessions (app (applyCallback (onChunk sid b) (onGrounding sid b) e iv))
       \<and> currentSessionId (app (applyCallback (onChunk sid b) (onGrounding sid b) e
             (iv\<lparr> app := selectSession other (app iv) \<rparr>))) = Some other"
proof (intro conjI)
  let ?ss = "sessions (app iv)"
  let ?f = "msgAfter (accumulatedText iv) [e]"
  have "sessions (app (applyCallback (onChunk sid b) (onGrounding sid b) e iv)) =
      map (\<lambda>s. if id_session s = sid
               then s\<lparr> messages := map (\<lambda>m. if id_msg m = b then ?f m else m) (messages s) \<rparr>
               else s) ?ss"
    by (simp only: applyCallback_sessions patch_distinct [OF assms(1)])
  also have "\<dots> = ?ss[j := (?ss ! j)\<lparr> messages := map (\<lambda>m. if id_msg m = b then ?f m else m) (messages (?ss ! j)) \<rparr>]"
    by (rule map_update_unique [OF assms(1,2,3)])
  also have "map (\<lambda>m. if id_msg m = b then ?f m else m) (messages (?ss ! j)) =
      (messages (?ss ! j))[k := ?f (messages (?ss ! j) ! k)]"
    by (rule map_update_unique [OF assms(4,5,6)])
  finally show "sessions (app (applyCallback (onChunk sid b) (onGrounding sid b) e iv)) =
           ?ss[j := (?ss ! j)\<lparr> messages := (messages (?ss ! j))[k := ?f (messages (?ss ! j) ! k)] \<rparr>]" .
  show "(app (applyCallback (onChunk sid b) (onGrounding sid b) e iv))\<lparr> sessions := sessions (app iv) \<rparr> = app iv"
    by (cases e) (simp_all add: onChunk_def onGrounding_def Let_def)
  show "sessions (app (applyCallback (onChunk sid b) (onGrounding sid b) e
             (iv\<lparr> app := selectSession other (app iv) \<rparr>))) =
           sessions (app (applyCallback (onChunk sid b) (onGrounding sid b) e iv))"
    by (cases e) (simp_all add: onChunk_def onGrounding_def Let_def selectSession_def)
  show "currentSessionId (app (applyCallback (onChunk sid b) (onGrounding sid b) e
             (iv\<lparr> app := selectSession other (app iv) \<rparr>))) = Some other"
    by (cases e) (simp_all add: onChunk_def onGrounding_def Let_def selectSession_def)
qed


theorem streaming_event_witness:
  "distinct (map id_session (sessions exampleState))
   \<and> id_session (sessions exampleState ! 0) = ''s1''
   \<and> id_msg (messages (sessions exampleState ! 0) ! 1) = ''m2''
   \<and> sessions (app (applyCallback (onChunk ''s1'' ''m2'') (onGrounding ''s1'' ''m2'') (TextDelta ''lo'')
         \<lparr> app = selectSession ''s0'' exampleState, accumulatedText = ''Hel'', accumulatedMetadata = None \<rparr>)) =
       [\<lparr> id_session = ''s1'', title = ''Greetings'',
          messages = [exampleMessages ! 0,
                      (exampleMessages ! 1)\<lparr> content := ''Hello'', isThinking := Some False \<rparr>],
          updatedAt = 2 \<rparr>,
        sessions exampleState ! 1]
   \<and> currentSessionId (app (applyCallback (onChunk ''s1'' ''m2'') (onGrounding ''s1'' ''m2'') (TextDelta ''lo'')
         \<lparr> app = selectSession ''s0'' exampleState, accumulatedText = ''Hel'', accumulatedMetadata = None \<rparr>)) =
       Some ''s0''"
proof -
  let ?iv = "\<lparr> app = exampleState, accumulatedText = ''Hel'', accumulatedMetadata = None \<rparr>"
  have h1: "distinct (map id_session (sessions (app ?iv)))"
    and h2: "0 < length (sessions (app ?iv))"
    and h3: "id_session (sessions (app ?iv) ! 0) = ''s1''"
    and h4: "distinct (map id_msg (messages (sessions (app ?iv) ! 0)))"
    and h5: "1 < length (messages (sessions (app ?iv) ! 0))"
    and h6: "id_msg (messages (sessions (app ?iv) ! 0) ! 1) = ''m2''"
    by (simp_all add: exampleState_def exampleMessages_def)
  note inst = streaming_event_replaces_one_message [OF h1 h2 h3 h4 h5 h6, of "TextDelta ''lo''" "''s0''"]
  show ?thesis
    using inst h1 h3 h6 by (simp add: exampleState_def exampleMessages_def)
qed

section \<open>The session registry: properties\<close>

lemma loneSessionState_eval:
  "loneSessionState =
     \<lparr> sessions = [\<lparr> id_session = ''b'', title = ''New Chat'', messages = [], updatedAt = 1 \<rparr>],
       currentSessionId = Some ''b'', currentModel = FLASH,
       enableSearch = False, enableThinking = False, isLoading = False \<rparr>"
  by (simp add: loneSessionState_def afterRender_def sessionEffect_def createNewSession_def
        initialState_def falsyId_def)

lemma registryExample_ids:
  "map id_session (sessions registryExample) = [''c'', ''a'', ''b'']"
  "map updatedAt (sessions registryExample) = [10, 3, 5]"
  "currentSessionId registryExample = Some ''c''"
  by (simp_all add: registryExample_def loneSessionState_eval createNewSession_def selectSession_def
        engine_defs helloBackend_def Let_def)

lemma sessionEffect_settles:
  "sessionEffect newId' now' (sessionEffect newId now st) = sessionEffect newId now st"
  by (cases "sessions st") (auto simp: sessionEffect_def createNewSession_def falsyId_def)

text \<open>
  C3, as the code has it. Deleting the current session, when it is in the list, and
  running the effect that the change of length triggers: if no session remains, the
  list is exactly one new session (no messages, title \<open>New Chat\<close>) and it is current;
  otherwise the list is the remaining sessions in stored order and the first of them
  (\<open>sessions[0]\<close>) is current, whatever its \<open>updatedAt\<close>.
\<close>

theorem delete_current_restores:
  assumes "currentSessionId st = Some sid"
    and "sid \<in> id_session ` set (sessions st)"
  shows "afterRender newId now (length (sessions st)) (deleteSession sid st) =
     (case filter (\<lambda>s. id_session s \<noteq> sid) (sessions st) of
        [] \<Rightarrow> st\<lparr> sessions := [\<lparr> id_session = newId, title = ''New Chat'', messages = [], updatedAt = now \<rparr>],
                  currentSessionId := Some newId \<rparr>
      | s0 # rest \<Rightarrow> st\<lparr> sessions := s0 # rest, currentSessionId := Some (id_session s0) \<rparr>)"
proof -
  have "length (filter (\<lambda>s. id_session s \<noteq> sid) (sessions st)) < length (sessions st)"
    using assms(2) by (auto intro: length_filter_less)
  then show ?thesis
    using assms(1)
    by (simp add: afterRender_def deleteSession_def sessionEffect_def createNewSession_def
          falsyId_def Let_def split: list.split)
qed

theorem delete_current_witness:
  "currentSessionId loneSessionState = Some ''b''
   \<and> afterRender ''n'' 11 (length (sessions loneSessionState)) (deleteSession ''b'' loneSessionState) =
       loneSessionState\<lparr> sessions := [\<lparr> id_session = ''n'', title = ''New Chat'', messages = [], updatedAt = 11 \<rparr>],
                         currentSessionId := Some ''n'' \<rparr>
   \<and> currentSessionId registryExample = Some ''c''
   \<and> currentSessionId (afterRender ''n'' 11 (length (sessions registryExample))
          (deleteSession ''c'' registryExample)) = Some ''a''"
proof -
  have lone: "currentSessionId loneSessionState = Some ''b''"
    and lone_in: "''b'' \<in> id_session ` set (sessions loneSessionState)"
    by (simp_all add: loneSessionState_eval)
  have reg: "currentSessionId registryExample = Some ''c''"
    by (rule registryExample_ids(3))
  have "''c'' \<in> set (map id_session (sessions registryExample))"
    unfolding registryExample_ids(1) by simp
  then have reg_in: "''c'' \<in> id_session ` set (sessions registryExample)"
    by simp
  have "afterRender ''n'' 11 (length (sessions loneSessionState)) (deleteSession ''b'' loneSessionState) =
       loneSessionState\<lparr> sessions := [\<lparr> id_session = ''n'', title = ''New Chat'', messages = [], updatedAt = 11 \<rparr>],
                         currentSessionId := Some ''n'' \<rparr>"
    using delete_current_restores [OF lone lone_in, of "''n''" 11]
    by (simp add: loneSessionState_eval)
  moreover have "currentSessionId (afterRender ''n'' 11 (length (sessions registryExample))
          (deleteSession ''c'' registryExample)) = Some ''a''"
    unfolding delete_current_restores [OF reg reg_in, of "''n''" 11]
    by (simp add: registryExample_def loneSessionState_eval createNewSession_def selectSession_def
          engine_defs helloBackend_def Let_def)
  ultimately show ?thesis using lone reg by blast
qed

text \<open>
  C3 as stated fails. Session \<open>b\<close> is created at time 1, session \<open>a\<close> at time 3, a message
  is sent in \<open>b\<close> at time 5, session \<open>c\<close> is created at time 10 and then deleted while
  current. The remaining sessions are \<open>a\<close> (updated at 3) and \<open>b\<close> (updated at 5), and
  \<open>a\<close> becomes current, not the most recently updated \<open>b\<close>.
\<close>

theorem delete_current_counterexample:
  "currentSessionId registryExample = Some ''c''
   \<and> map id_session (sessions (afterRender ''n'' 11 (length (sessions registryExample))
          (deleteSession ''c'' registryExample))) = [''a'', ''b'']
   \<and> map updatedAt (sessions (afterRender ''n'' 11 (length (sessions registryExample))
          (deleteSession ''c'' registryExample))) = [3, 5]
   \<and> currentSessionId (afterRender ''n'' 11 (length (sessions registryExample))
          (deleteSession ''c'' registryExample)) = Some ''a''"
  by (simp add: registryExample_def loneSessionState_eval createNewSession_def selectSession_def
        engine_defs helloBackend_def Let_def afterRender_def deleteSession_def sessionEffect_def falsyId_def)

section \<open>The handlers: properties\<close>

subsection \<open>Editing a message\<close>

lemma findIndex_first:
  assumes "i < length xs" and "P (xs ! i)" and "\<forall>x \<in> set (take i xs). \<not> P x"
  shows "findIndex P xs = Some i"
  using assms
proof (induction xs arbitrary: i)
  case Nil
  then show ?case by simp
next
  case (Cons x xs)
  show ?case
  proof (cases i)
    case 0
    with Cons.prems show ?thesis by simp
  next
    case (Suc n)
    with Cons.prems have "findIndex P xs = Some n"
      by (intro Cons.IH) simp_all
    moreover from Suc Cons.prems have "\<not> P x" by simp
    ultimately show ?thesis using Suc by simp
  qed
qed

lemma currentSession_found:
  assumes "currentSessionId st = Some sid"
    and "List.find (\<lambda>s. id_session s = sid) (sessions st) = Some cs"
  shows "currentSession st = Some cs"
  using assms by (simp add: currentSession_def)

lemma generateResponse_ids:
  assumes "currentSessionId st = Some sid" and "sid \<noteq> []"
    and "List.find (\<lambda>s. id_session s = sid) (sessions st) = Some s0"
  shows "map id_msg (sessionMessages sid (fst (generateResponse backend b tMsg tUpd msgs hist turn st))) =
           map id_msg msgs @ [b]"
proof -
  let ?req = "buildRequest (currentModel st) hist turn (enableSearch st) (enableThinking st)"
  have stream: "backend ?req = (fst (backend ?req), snd (backend ?req))" by simp
  have run: "generateResponse backend b tMsg tUpd msgs hist turn st =
     (st\<lparr> sessions := withMessages sid
            (map (\<lambda>m. if id_msg m = b then finalMsg (snd (backend ?req)) (adapterEvents (fst (backend ?req))) m else m)
                 (msgs @ [botPlaceholder b tMsg st]))
            (touched tUpd sid (sessions st)),
          isLoading := False \<rparr>, [?req])"
    using assms(1,2) stream by (rule generateResponse_run)
  have "sessionMessages sid (fst (generateResponse backend b tMsg tUpd msgs hist turn st)) =
      map (\<lambda>m. if id_msg m = b then finalMsg (snd (backend ?req)) (adapterEvents (fst (backend ?req))) m else m)
          (msgs @ [botPlaceholder b tMsg st])"
    unfolding run fst_conv
    by (intro sessionMessages_withMessages [OF assms(3), where now = tUpd]) simp
  moreover have "id_msg (finalMsg e evs m) = id_msg m" for e evs m
    by (cases e) simp_all
  ultimately show ?thesis
    by (simp add: o_def if_distrib cong: if_cong)
qed

lemma pendingState_messages:
  assumes "List.find (\<lambda>s. id_session s = sid) (sessions st) = Some s0"
  shows "sessionMessages sid (pendingState b tMsg tUpd sid msgs st) = msgs @ [botPlaceholder b tMsg st]"
  by (intro sessionMessages_withMessages [OF assms, where now = tUpd]) (simp add: pendingState_sessions)

text \<open>
  C7. Editing, in the current session, the message at index \<open>i\<close> (the first with its
  id): the handler calls the engine with the list to display equal to the messages
  before \<open>i\<close> followed by the edited message (the original with new content and new
  timestamp), with the messages before \<open>i\<close> as context and the new content as the turn.
  The engine stores that list with the placeholder appended, so no message originally
  after \<open>i\<close> remains; the one request to the backend carries the context and then the
  new content; and at the end the session holds \<open>i + 2\<close> messages.
\<close>

theorem edit_truncates_and_regenerates:
  assumes "currentSessionId st = Some sid" and "sid \<noteq> []"
    and "List.find (\<lambda>s. id_session s = sid) (sessions st) = Some cs"
    and "i < length (messages cs)"
    and "id_msg (messages cs ! i) = messageId"
    and "\<forall>m \<in> set (take i (messages cs)). id_msg m \<noteq> messageId"
  shows "handleEditMessage backend tEdit b tMsg tUpd messageId newContent st =
           generateResponse backend b tMsg tUpd
             (take i (messages cs) @ [(messages cs ! i)\<lparr> content := newContent, timestamp := tEdit \<rparr>])
             (take i (messages cs)) newContent st
       \<and> sessionMessages sid (pendingState b tMsg tUpd sid
             (take i (messages cs) @ [(messages cs ! i)\<lparr> content := newContent, timestamp := tEdit \<rparr>]) st) =
           take i (messages cs) @ [(messages cs ! i)\<lparr> content := newContent, timestamp := tEdit \<rparr>,
                                   botPlaceholder b tMsg st]
       \<and> map contents (snd (handleEditMessage backend tEdit b tMsg tUpd messageId newContent st)) =
           [formatHistory (take i (messages cs)) @ [Content User [newContent]]]
       \<and> map id_msg (sessionMessages sid (fst (handleEditMessage backend tEdit b tMsg tUpd messageId newContent st))) =
           map id_msg (take i (messages cs)) @ [messageId, b]
       \<and> length (sessionMessages sid (fst (handleEditMessage backend tEdit b tMsg tUpd messageId newContent st))) = i + 2"
proof -
  let ?edited = "(messages cs ! i)\<lparr> content := newContent, timestamp := tEdit \<rparr>"
  let ?req = "buildRequest (currentModel st) (take i (messages cs)) newContent (enableSearch st) (enableThinking st)"
  have idx: "findIndex (\<lambda>m. id_msg m = messageId) (messages cs) = Some i"
    using assms(4,5,6) by (intro findIndex_first) simp_all
  have h: "handleEditMessage backend tEdit b tMsg tUpd messageId newContent st =
           generateResponse backend b tMsg tUpd (take i (messages cs) @ [?edited]) (take i (messages cs)) newContent st"
    by (simp add: handleEditMessage_def currentSession_found [OF assms(1,3)] idx Let_def)
  have p: "sessionMessages sid (pendingState b tMsg tUpd sid (take i (messages cs) @ [?edited]) st) =
           take i (messages cs) @ [?edited, botPlaceholder b tMsg st]"
    by (simp add: pendingState_messages [OF assms(3)])
  have stream: "backend ?req = (fst (backend ?req), snd (backend ?req))" by simp
  have r: "snd (handleEditMessage backend tEdit b tMsg tUpd messageId newContent st) = [?req]"
    unfolding h using assms(1,2) stream by (rule generateResponse_flags(2))
  have c: "map contents (snd (handleEditMessage backend tEdit b tMsg tUpd messageId newContent st)) =
           [formatHistory (take i (messages cs)) @ [Content User [newContent]]]"
    unfolding r by (simp add: buildRequest_def Let_def)
  have ids: "map id_msg (sessionMessages sid (fst (handleEditMessage backend tEdit b tMsg tUpd messageId newContent st))) =
           map id_msg (take i (messages cs)) @ [messageId, b]"
    unfolding h generateResponse_ids [OF assms(1,2,3)] using assms(5) by simp
  have "length (map id_msg (sessionMessages sid (fst (handleEditMessage backend tEdit b tMsg tUpd messageId newContent st)))) = i + 2"
    unfolding ids using assms(4) by simp
  then have len: "length (sessionMessages sid (fst (handleEditMessage backend tEdit b tMsg tUpd messageId newContent st))) = i + 2"
    by simp
  from h p c ids len show ?thesis by blast
qed


theorem edit_truncates_witness:
  "currentSessionId exampleState = Some ''s1''
   \<and> map content (messages (hd (sessions exampleState))) = [''hi'', ''hello'']
   \<and> id_msg (messages (hd (sessions exampleState)) ! 0) = ''m1''
   \<and> map content (sessionMessages ''s1'' (pendingState ''b1'' 3 4 ''s1''
         (take 0 (messages (hd (sessions exampleState))) @
          [(messages (hd (sessions exampleState)) ! 0)\<lparr> content := ''hey'', timestamp := 9 \<rparr>]) exampleState)) =
       [''hey'', []]
   \<and> map contents (snd (handleEditMessage helloBackend 9 ''b1'' 3 4 ''m1'' ''hey'' exampleState)) =
       [[Content User [''hey'']]]
   \<and> map id_msg (sessionMessages ''s1''
         (fst (handleEditMessage helloBackend 9 ''b1'' 3 4 ''m1'' ''hey'' exampleState))) = [''m1'', ''b1'']"
proof -
  let ?cs = "hd (sessions exampleState)"
  have ne: "''s1'' \<noteq> []" by simp
  have m: "messages ?cs = exampleMessages"
    by (simp add: exampleState_def)
  have h4: "0 < length (messages ?cs)"
    and h5: "id_msg (messages ?cs ! 0) = ''m1''"
    and h6: "\<forall>m \<in> set (take 0 (messages ?cs)). id_msg m \<noteq> ''m1''"
    by (simp_all add: m exampleMessages_def)
  note inst = edit_truncates_and_regenerates [where backend = helloBackend and tEdit = 9 and b = "''b1''"
      and tMsg = 3 and tUpd = 4 and newContent = "''hey''",
      OF exampleState_current ne exampleState_found h4 h5 h6]
  have c: "map content (messages ?cs) = [''hi'', ''hello'']"
    by (simp add: m exampleMessages_def)
  have p: "map content (sessionMessages ''s1'' (pendingState ''b1'' 3 4 ''s1''
         (take 0 (messages ?cs) @ [(messages ?cs ! 0)\<lparr> content := ''hey'', timestamp := 9 \<rparr>]) exampleState)) =
       [''hey'', []]"
    unfolding inst [THEN conjunct2, THEN conjunct1]
    by (simp add: botPlaceholder_def)
  have r: "map contents (snd (handleEditMessage helloBackend 9 ''b1'' 3 4 ''m1'' ''hey'' exampleState)) =
       [[Content User [''hey'']]]"
    unfolding inst [THEN conjunct2, THEN conjunct2, THEN conjunct1]
    by (simp add: formatHistory_def)
  have ids: "map id_msg (sessionMessages ''s1''
         (fst (handleEditMessage helloBackend 9 ''b1'' 3 4 ''m1'' ''hey'' exampleState))) = [''m1'', ''b1'']"
    unfolding inst [THEN conjunct2, THEN conjunct2, THEN conjunct2, THEN conjunct1]
    by simp
  from exampleState_current c h5 p r ids show ?thesis by blast
qed

subsection \<open>Sending with attachments\<close>

lemma decimal_12: "decimal 12 = ''12''"
  by (simp add: decimal.simps)

text \<open>
  C10. A send with at least one attached file, in a current session that exists: the
  one request to the backend carries the session's earlier messages as history and, as
  the turn, the composer text followed by a blank line and \<open>[Attached n file(s)]\<close> with
  \<open>n\<close> the number of files in decimal; that turn is not the raw composer text, and
  nothing else of the files is in the request.
\<close>

theorem attachments_annotate_prompt:
  assumes "currentSessionId st = Some sid" and "sid \<noteq> []"
    and "List.find (\<lambda>s. id_session s = sid) (sessions st) = Some cs"
    and "files \<noteq> []"
  shows "snd (handleSendMessage backend titleBackend userMsgId tUser b tMsg tUpd input files st) =
           [buildRequest (currentModel st) (messages cs)
              (input @ ''\<newline>\<newline>[Attached '' @ decimal (length files) @ '' file(s)]'')
              (enableSearch st) (enableThinking st)]
       \<and> map contents (snd (handleSendMessage backend titleBackend userMsgId tUser b tMsg tUpd input files st)) =
           [formatHistory (messages cs) @
            [Content User [input @ ''\<newline>\<newline>[Attached '' @ decimal (length files) @ '' file(s)]'']]]
       \<and> input @ ''\<newline>\<newline>[Attached '' @ decimal (length files) @ '' file(s)]'' \<noteq> input"
proof -
  let ?turn = "input @ ''\<newline>\<newline>[Attached '' @ decimal (length files) @ '' file(s)]''"
  let ?userMsg = "\<lparr> id_msg = userMsgId, role = User, content = ?turn, timestamp = tUser,
                    isReasoning = None, groundingMetadata = None, isThinking = None \<rparr>"
  let ?req = "buildRequest (currentModel st) (messages cs) ?turn (enableSearch st) (enableThinking st)"
  have stream: "backend ?req = (fst (backend ?req), snd (backend ?req))" by simp
  have g: "snd (generateResponse backend b tMsg tUpd (messages cs @ [?userMsg]) (messages cs) ?turn st) = [?req]"
    using assms(1,2) stream by (rule generateResponse_flags(2))
  have "snd (handleSendMessage backend titleBackend userMsgId tUser b tMsg tUpd input files st) =
          snd (generateResponse backend b tMsg tUpd (messages cs @ [?userMsg]) (messages cs) ?turn st)"
    using assms(4)
    by (simp add: handleSendMessage_def currentSession_found [OF assms(1,3)] Let_def split: prod.split)
  then have r: "snd (handleSendMessage backend titleBackend userMsgId tUser b tMsg tUpd input files st) = [?req]"
    by (simp only: g)
  have c: "map contents (snd (handleSendMessage backend titleBackend userMsgId tUser b tMsg tUpd input files st)) =
           [formatHistory (messages cs) @ [Content User [?turn]]]"
    unfolding r by (simp add: buildRequest_def Let_def)
  have n: "?turn \<noteq> input" by simp
  from r c n show ?thesis by blast
qed


theorem attachments_annotate_witness:
  "currentSessionId exampleState = Some ''s1''
   \<and> [(), ()] \<noteq> []
   \<and> map contents (snd (handleSendMessage helloBackend failingTitleBackend ''u9'' 8 ''b1'' 3 4
         ''look'' [(), ()] exampleState)) =
       [[Content User [''hi''], Content Model [''hello''],
         Content User [''look\<newline>\<newline>[Attached 2 file(s)]'']]]"
proof -
  have ne: "''s1'' \<noteq> []" by simp
  have files: "[(), ()] \<noteq> []" by simp
  have "decimal 2 = ''2''"
    by (subst decimal.simps) simp
  then have d: "decimal (Suc (Suc 0)) = ''2''"
    by (simp add: numeral_2_eq_2)
  note inst = attachments_annotate_prompt [where backend = helloBackend and titleBackend = failingTitleBackend
      and userMsgId = "''u9''" and tUser = 8 and b = "''b1''" and tMsg = 3 and tUpd = 4 and input = "''look''",
      OF exampleState_current ne exampleState_found files]
  have "map contents (snd (handleSendMessage helloBackend failingTitleBackend ''u9'' 8 ''b1'' 3 4
         ''look'' [(), ()] exampleState)) =
       [[Content User [''hi''], Content Model [''hello''],
         Content User [''look\<newline>\<newline>[Attached 2 file(s)]'']]]"
    unfolding inst [THEN conjunct2, THEN conjunct1]
    by (simp add: exampleState_def exampleMessages_def formatHistory_def d)
  with exampleState_current files show ?thesis by blast
qed

end
